theory Spec2Isabelle
  imports Complex_Main
begin

section \<open>The on-axis field-intensity calculator of the near-field notebook\<close>

text \<open>
  The notebook \<^verbatim>\<open>SL_3_Near_Field_and_Source_Level.ipynb\<close> defines one computational
  function, \<^verbatim>\<open>far_and_full_field_intensity_on_axis(f, a, SL)\<close>, and a plotting callback
  bound to three sliders. This theory embeds the function over the real and complex
  numbers: every arithmetic operation of the source is the exact operation, so rounding,
  overflow and underflow of binary floating point are outside the model. On inputs within
  the slider ranges the source takes the same path as the model and differs from it by
  rounding only. Far outside them it can raise where the model does not
  (\<^verbatim>\<open>OverflowError\<close> from \<^verbatim>\<open>10**(SL / 20)\<close> for a huge source level, a divisor that
  underflows to zero for a tiny radius), so every statement below about which inputs fail
  is made on inputs of bounded magnitude. What the source does at the edges of the domain
  is kept:
  \<^item> Python's \<^verbatim>\<open>/\<close> on two scalars raises \<^verbatim>\<open>ZeroDivisionError\<close> when the divisor is
    zero (the sliders deliver a Python \<^verbatim>\<open>int\<close> and \<^verbatim>\<open>float\<close>);
  \<^item> \<^verbatim>\<open>np.log10\<close> returns \<^verbatim>\<open>-inf\<close> at zero and \<^verbatim>\<open>nan\<close> below zero, and raises nothing;
  \<^item> the module-level names \<^verbatim>\<open>rho0\<close> and \<^verbatim>\<open>c\<close> are read by the function, so the
    function takes the module state and returns it.
\<close>

subsection \<open>Module state, errors and numpy values\<close>

text \<open>The two module-level constants of the code cell, \<^verbatim>\<open>rho0 = 1\<close> and \<^verbatim>\<open>c = 1500\<close>.\<close>

record globals =
  rho0 :: real
  c :: real

definition notebook_globals :: globals where
  "notebook_globals = \<lparr>rho0 = 1, c = 1500\<rparr>"

datatype error = ZeroDivisionError

text \<open>An entry of a numpy float array: a number, \<^verbatim>\<open>-inf\<close>, \<^verbatim>\<open>inf\<close> or \<^verbatim>\<open>nan\<close>.\<close>

datatype npfloat = Num real | NegInf | PosInf | NaN

text \<open>Python's true division of two scalars.\<close>

definition py_div :: "real \<Rightarrow> real \<Rightarrow> error + real" where
  "py_div x y = (if y = 0 then Inl ZeroDivisionError else Inr (x / y))"

text \<open>\<^verbatim>\<open>np.log10\<close> on one entry.\<close>

definition np_log10 :: "real \<Rightarrow> npfloat" where
  "np_log10 y = (if y < 0 then NaN else if y = 0 then NegInf else Num (log 10 y))"

text \<open>A Python scalar times an array entry (\<^verbatim>\<open>10 * np.log10(...)\<close>).\<close>

fun np_times :: "real \<Rightarrow> npfloat \<Rightarrow> npfloat" where
  "np_times m (Num r) = Num (m * r)"
| "np_times m NegInf = (if 0 < m then NegInf else if m < 0 then PosInf else NaN)"
| "np_times m PosInf = (if 0 < m then PosInf else if m < 0 then NegInf else NaN)"
| "np_times m NaN = NaN"

text \<open>An array entry plus a scalar; used to state how a curve shifts.\<close>

fun np_plus :: "npfloat \<Rightarrow> real \<Rightarrow> npfloat" where
  "np_plus (Num r) d = Num (r + d)"
| "np_plus NegInf d = NegInf"
| "np_plus PosInf d = PosInf"
| "np_plus NaN d = NaN"

text \<open>
  \<^verbatim>\<open>np.linspace(start, stop, num)\<close> with the default \<^verbatim>\<open>endpoint=True\<close>: the samples
  \<^verbatim>\<open>arange(0, num) * step + start\<close> with \<^verbatim>\<open>step = (stop - start) / (num - 1)\<close>, and the
  last sample then overwritten by \<^verbatim>\<open>stop\<close>.
\<close>

definition linspace :: "real \<Rightarrow> real \<Rightarrow> nat \<Rightarrow> real list" where
  "linspace start stop num =
     (if num = 0 then []
      else if num = 1 then [start]
      else (map (\<lambda>i. real i * ((stop - start) / real (num - 1)) + start) [0..<num])
             [num - 1 := stop])"

subsection \<open>The calculator, line by line\<close>

text \<open>\<^verbatim>\<open>omega = 2 * np.pi * f * 1000\<close>\<close>

definition omega :: "real \<Rightarrow> real" where
  "omega f = 2 * pi * f * 1000"

text \<open>\<^verbatim>\<open>k = omega / c\<close>\<close>

definition wavenumber :: "globals \<Rightarrow> real \<Rightarrow> error + real" where
  "wavenumber g f = py_div (omega f) (c g)"

text \<open>
  \<^verbatim>\<open>SL_lin = 10**(SL / 20)\<close>, as the exact power. (Python raises \<^verbatim>\<open>OverflowError\<close> when
  the power exceeds the float range, for \<open>SL / 20\<close> above about 308; no source level of
  the slider range comes near it.)
\<close>

definition SL_lin :: "real \<Rightarrow> real" where
  "SL_lin SL = 10 powr (SL / 20)"

text \<open>
  \<^verbatim>\<open>U0 = SL_lin / (rho0 * c * k * a * a / 2)\<close>; the division raises when the exact
  divisor is zero. (In floating point the divisor is also zero when it underflows, for a
  radius or frequency of tiny magnitude; none of the slider ranges comes near it.)
\<close>

definition U0 :: "globals \<Rightarrow> real \<Rightarrow> real \<Rightarrow> real \<Rightarrow> error + real" where
  "U0 g k a SL = py_div (SL_lin SL) (rho0 g * c g * k * a * a / 2)"

text \<open>\<^verbatim>\<open>x_axis = np.linspace(0.01, 5, 200)\<close>\<close>

definition x_axis :: "real list" where
  "x_axis = linspace 0.01 5 200"

text \<open>
  One entry of \<^verbatim>\<open>P_far_axis = 0.5 * c * U0 * k * a * a / x_axis\<close> and of
  \<^verbatim>\<open>I_far_axis = 10 * np.log10(np.square(P_far_axis))\<close>. The division is by a range
  sample, and no sample of \<open>x_axis\<close> is zero (\<open>x_axis_bounds\<close> below).
\<close>

definition P_far :: "globals \<Rightarrow> real \<Rightarrow> real \<Rightarrow> real \<Rightarrow> real \<Rightarrow> real" where
  "P_far g u k a x = 0.5 * c g * u * k * a * a / x"

definition I_far :: "real \<Rightarrow> npfloat" where
  "I_far p = np_times 10 (np_log10 (p\<^sup>2))"

definition P_far_axis :: "globals \<Rightarrow> real \<Rightarrow> real \<Rightarrow> real \<Rightarrow> real list" where
  "P_far_axis g u k a = map (P_far g u k a) x_axis"

definition I_far_axis :: "globals \<Rightarrow> real \<Rightarrow> real \<Rightarrow> real \<Rightarrow> npfloat list" where
  "I_far_axis g u k a = map I_far (P_far_axis g u k a)"

text \<open>
  One entry of
  \<^verbatim>\<open>P_full_axis = rho0 * c * U0 * (np.exp(-1j * k * x_axis)
       - np.exp(-1j * k * np.sqrt(np.square(x_axis) + np.square(a))))\<close>
  and of \<^verbatim>\<open>I_full_axis = 10 * np.log10(np.abs(P_full_axis)**2)\<close>.
\<close>

definition P_full :: "globals \<Rightarrow> real \<Rightarrow> real \<Rightarrow> real \<Rightarrow> real \<Rightarrow> complex" where
  "P_full g u k a x =
     of_real (rho0 g * c g * u) *
       (exp (- \<i> * of_real k * of_real x) - exp (- \<i> * of_real k * of_real (sqrt (x\<^sup>2 + a\<^sup>2))))"

definition I_full :: "complex \<Rightarrow> npfloat" where
  "I_full p = np_times 10 (np_log10 ((cmod p)\<^sup>2))"

definition P_full_axis :: "globals \<Rightarrow> real \<Rightarrow> real \<Rightarrow> real \<Rightarrow> complex list" where
  "P_full_axis g u k a = map (P_full g u k a) x_axis"

definition I_full_axis :: "globals \<Rightarrow> real \<Rightarrow> real \<Rightarrow> real \<Rightarrow> npfloat list" where
  "I_full_axis g u k a = map I_full (P_full_axis g u k a)"

text \<open>
  The function: the first failing division ends it with the error; otherwise it returns
  the triple \<^verbatim>\<open>(x_axis, I_far_axis, I_full_axis)\<close>. It assigns to no module-level name,
  so the module state comes back as it went in.
\<close>

definition far_and_full_field_intensity_on_axis ::
  "globals \<Rightarrow> real \<Rightarrow> real \<Rightarrow> real \<Rightarrow>
     (error + real list \<times> npfloat list \<times> npfloat list) \<times> globals" where
  "far_and_full_field_intensity_on_axis g f a SL =
     (case wavenumber g f of
        Inl e \<Rightarrow> (Inl e, g)
      | Inr k \<Rightarrow>
          (case U0 g k a SL of
             Inl e \<Rightarrow> (Inl e, g)
           | Inr u \<Rightarrow> (Inr (x_axis, I_far_axis g u k a, I_full_axis g u k a), g)))"

text \<open>
  The slider bounds of the cell: \<^verbatim>\<open>IntSlider(min=1, max=200)\<close> for the frequency in kHz,
  \<^verbatim>\<open>FloatSlider(min=0.01, max=1)\<close> for the radius in metres and
  \<^verbatim>\<open>IntSlider(min=100, max=220)\<close> for the source level in dB.
\<close>

definition valid_input :: "real \<Rightarrow> real \<Rightarrow> real \<Rightarrow> bool" where
  "valid_input f a SL \<longleftrightarrow> 1 \<le> f \<and> f \<le> 200 \<and> 0.01 \<le> a \<and> a \<le> 1 \<and> 100 \<le> SL \<and> SL \<le> 220"

text \<open>
  Inputs of slider magnitude, either sign: the source level in its slider range, the
  frequency and the radius zero or of an absolute value in their slider ranges. On these
  inputs no operation of the source overflows or underflows.
\<close>

definition slider_magnitudes :: "real \<Rightarrow> real \<Rightarrow> real \<Rightarrow> bool" where
  "slider_magnitudes f a SL \<longleftrightarrow>
     (f = 0 \<or> 1 \<le> \<bar>f\<bar> \<and> \<bar>f\<bar> \<le> 200) \<and> (a = 0 \<or> 0.01 \<le> \<bar>a\<bar> \<and> \<bar>a\<bar> \<le> 1) \<and>
     100 \<le> SL \<and> SL \<le> 220"

text \<open>
  With the notebook's constants the first division never fails and the second fails
  exactly when \<open>f = 0\<close> or \<open>a = 0\<close>; these are the values of \<^verbatim>\<open>k\<close> and \<^verbatim>\<open>U0\<close>
  when neither fails (\<open>wavenumber_notebook\<close> and \<open>U0_notebook\<close> below).
\<close>

definition k_val :: "real \<Rightarrow> real" where
  "k_val f = omega f / 1500"

definition U0_val :: "real \<Rightarrow> real \<Rightarrow> real \<Rightarrow> real" where
  "U0_val f a SL = SL_lin SL / (1 * 1500 * k_val f * a * a / 2)"

text \<open>
  Two phases used to compare the curves: half the phase difference of the two
  exponentials of the full field at range \<open>x\<close>, and its far-range limit
  \<open>k * a\<^sup>2 / (4 * x)\<close>.
\<close>

definition half_phase :: "real \<Rightarrow> real \<Rightarrow> real \<Rightarrow> real" where
  "half_phase f a x = k_val f * (sqrt (x\<^sup>2 + a\<^sup>2) - x) / 2"

definition far_phase :: "real \<Rightarrow> real \<Rightarrow> real \<Rightarrow> real" where
  "far_phase f a x = k_val f * a\<^sup>2 / (4 * x)"

text \<open>
  The wavelength \<open>\<lambda> = c / f\<close> of the notebook's text, the frequency being given in kHz.
\<close>

definition wavelength :: "globals \<Rightarrow> real \<Rightarrow> real" where
  "wavelength g f = c g / (f * 1000)"

text \<open>
  Two array entries differ by less than \<open>t\<close> dB: both are numbers, and their distance is
  below \<open>t\<close>.
\<close>

fun within_dB :: "real \<Rightarrow> npfloat \<Rightarrow> npfloat \<Rightarrow> bool" where
  "within_dB t (Num r) (Num s) = (\<bar>r - s\<bar> < t)"
| "within_dB t _ _ = False"

text \<open>
  The calculator returns, and the last far-field and full-field samples differ by less
  than 1 dB.
\<close>

definition last_samples_agree :: "real \<Rightarrow> real \<Rightarrow> real \<Rightarrow> bool" where
  "last_samples_agree f a SL =
     (case fst (far_and_full_field_intensity_on_axis notebook_globals f a SL) of
        Inl e \<Rightarrow> False
      | Inr (xs, fa, fu) \<Rightarrow> within_dB 1 (last fa) (last fu))"

section \<open>Properties\<close>

subsection \<open>The range axis\<close>

lemma x_axis_length: "length x_axis = 200"
  by (simp add: x_axis_def linspace_def)

lemma x_axis_nth: "i < 200 \<Longrightarrow> x_axis ! i = 0.01 + real i * (4.99 / 199)"
  by (cases "i = 199") (simp_all add: x_axis_def linspace_def nth_list_update)

lemma x_axis_bounds: "x \<in> set x_axis \<Longrightarrow> 0 < x \<and> x \<le> 5"
proof -
  assume "x \<in> set x_axis"
  then obtain i where i: "i < 200" and x: "x = x_axis ! i"
    by (metis in_set_conv_nth x_axis_length)
  have e: "x = 0.01 + real i * (4.99 / 199)" using x x_axis_nth [OF i] by simp
  have "real i \<le> 199" using i by simp
  then have "real i * (4.99 / 199) \<le> 199 * (4.99 / 199)"
    by (intro mult_right_mono) simp_all
  then show ?thesis using e by simp
qed

lemma x_axis_increasing: "i < j \<Longrightarrow> j < 200 \<Longrightarrow> x_axis ! i < x_axis ! j"
  by (simp add: x_axis_nth)

subsection \<open>The calculator on the notebook's constants\<close>

lemma wavenumber_notebook: "wavenumber notebook_globals f = Inr (k_val f)"
  by (simp add: wavenumber_def py_div_def notebook_globals_def k_val_def)

lemma k_val_zero_iff: "k_val f = 0 \<longleftrightarrow> f = 0"
  by (simp add: k_val_def omega_def)

lemma U0_notebook:
  "U0 notebook_globals (k_val f) a SL =
     (if f = 0 \<or> a = 0 then Inl ZeroDivisionError else Inr (U0_val f a SL))"
  by (simp add: U0_def py_div_def notebook_globals_def U0_val_def k_val_zero_iff)

lemma calc_notebook:
  "far_and_full_field_intensity_on_axis notebook_globals f a SL =
     (if f = 0 \<or> a = 0 then (Inl ZeroDivisionError, notebook_globals)
      else (Inr (x_axis, I_far_axis notebook_globals (U0_val f a SL) (k_val f) a,
                 I_full_axis notebook_globals (U0_val f a SL) (k_val f) a), notebook_globals))"
  by (simp add: far_and_full_field_intensity_on_axis_def wavenumber_notebook U0_notebook)

lemma SL_lin_pos: "0 < SL_lin SL"
  by (simp add: SL_lin_def)

lemma P_far_notebook:
  "f \<noteq> 0 \<Longrightarrow> a \<noteq> 0 \<Longrightarrow> P_far notebook_globals (U0_val f a SL) (k_val f) a x = SL_lin SL / x"
  by (simp add: P_far_def notebook_globals_def U0_val_def k_val_zero_iff)

lemma I_far_SL_lin:
  assumes "0 < x"
  shows "I_far (SL_lin SL / x) = Num (SL - 20 * log 10 x)"
proof -
  have p: "0 < SL_lin SL / x" using assms SL_lin_pos by simp
  have "log 10 ((SL_lin SL / x)\<^sup>2) = 2 * log 10 (SL_lin SL / x)"
    using p by (simp add: log_nat_power)
  also have "\<dots> = 2 * (log 10 (SL_lin SL) - log 10 x)"
    using assms SL_lin_pos [of SL] by (simp add: log_divide)
  also have "log 10 (SL_lin SL) = SL / 20"
    by (simp add: SL_lin_def)
  finally have "10 * log 10 ((SL_lin SL / x)\<^sup>2) = SL - 20 * log 10 x" by simp
  moreover have "(SL_lin SL / x)\<^sup>2 > 0" using p by (rule zero_less_power)
  ultimately show ?thesis unfolding I_far_def np_log10_def by simp
qed


lemma cmod_cis_diff: "(cmod (cis A - cis B))\<^sup>2 = 4 * (sin ((A - B) / 2))\<^sup>2"
proof -
  have e: "A - B = 2 * ((A - B) / 2)" by simp
  have d: "cos (A - B) = 1 - 2 * (sin ((A - B) / 2))\<^sup>2"
    by (subst e) (rule cos_double_sin)
  have "(cmod (cis A - cis B))\<^sup>2 = (cos A - cos B)\<^sup>2 + (sin A - sin B)\<^sup>2"
    by (simp add: cmod_power2)
  also have "\<dots> = ((cos A)\<^sup>2 + (sin A)\<^sup>2) + ((cos B)\<^sup>2 + (sin B)\<^sup>2)
      - 2 * (cos A * cos B + sin A * sin B)"
    by (simp add: power2_eq_square algebra_simps)
  also have "\<dots> = 2 - 2 * cos (A - B)"
    by (simp add: cos_diff)
  also have "\<dots> = 4 * (sin ((A - B) / 2))\<^sup>2"
    by (simp add: d)
  finally show ?thesis .
qed

lemma exp_minus_ii: "exp (- \<i> * of_real k * of_real x) = cis (- (k * x))"
  by (simp add: cis_conv_exp mult.assoc)

lemma cmod_P_full:
  "(cmod (P_full g u k a x))\<^sup>2 =
     (rho0 g * c g * u)\<^sup>2 * (4 * (sin (k * (sqrt (x\<^sup>2 + a\<^sup>2) - x) / 2))\<^sup>2)"
proof -
  have "(cmod (P_full g u k a x))\<^sup>2 =
      (rho0 g * c g * u)\<^sup>2 * (cmod (cis (- (k * x)) - cis (- (k * sqrt (x\<^sup>2 + a\<^sup>2)))))\<^sup>2"
    unfolding P_full_def exp_minus_ii by (simp add: norm_mult power_mult_distrib)
  then show ?thesis by (simp add: cmod_cis_diff algebra_simps)
qed

lemma valid_input_nonzero: "valid_input f a SL \<Longrightarrow> f \<noteq> 0 \<and> a \<noteq> 0"
  by (auto simp add: valid_input_def)

lemma calc_valid:
  "valid_input f a SL \<Longrightarrow>
   fst (far_and_full_field_intensity_on_axis notebook_globals f a SL) =
     Inr (x_axis, I_far_axis notebook_globals (U0_val f a SL) (k_val f) a,
          I_full_axis notebook_globals (U0_val f a SL) (k_val f) a)"
  using valid_input_nonzero [of f a SL] by (simp add: calc_notebook)

lemma x_axis_nth_pos: "i < 200 \<Longrightarrow> 0 < x_axis ! i"
  using x_axis_bounds [of "x_axis ! i"] by (simp add: x_axis_length)

lemma I_far_axis_length: "length (I_far_axis g u k a) = 200"
  by (simp add: I_far_axis_def P_far_axis_def x_axis_length)

lemma I_full_axis_length: "length (I_full_axis g u k a) = 200"
  by (simp add: I_full_axis_def P_full_axis_def x_axis_length)

lemma P_far_axis_nth:
  "f \<noteq> 0 \<Longrightarrow> a \<noteq> 0 \<Longrightarrow> i < 200 \<Longrightarrow>
   P_far_axis notebook_globals (U0_val f a SL) (k_val f) a ! i = SL_lin SL / x_axis ! i"
  by (simp add: P_far_axis_def x_axis_length P_far_notebook)

lemma I_far_axis_nth:
  "f \<noteq> 0 \<Longrightarrow> a \<noteq> 0 \<Longrightarrow> i < 200 \<Longrightarrow>
   I_far_axis notebook_globals (U0_val f a SL) (k_val f) a ! i
     = Num (SL - 20 * log 10 (x_axis ! i))"
  by (simp add: I_far_axis_def P_far_axis_def x_axis_length P_far_notebook
      I_far_SL_lin x_axis_nth_pos)

subsection \<open>The far field\<close>

text \<open>
  Claim C1. For every valid input, the far-field intensity that the calculator's
  expression gives at the reference range of 1 m is the chosen source level:
  with the \<^verbatim>\<open>k\<close> and \<^verbatim>\<open>U0\<close> the function computes,
  \<open>10 * log10 ((0.5 * c * U0 * k * a * a / 1)\<^sup>2) = SL\<close>. In exact arithmetic the
  two are equal, hence within every tolerance.
\<close>

theorem far_field_at_reference_range:
  "valid_input f a SL \<Longrightarrow>
   \<exists>k u. wavenumber notebook_globals f = Inr k \<and> U0 notebook_globals k a SL = Inr u \<and>
         I_far (P_far notebook_globals u k a 1) = Num SL"
proof -
  assume v: "valid_input f a SL"
  then have nz: "f \<noteq> 0" "a \<noteq> 0" using valid_input_nonzero by blast+
  have "I_far (P_far notebook_globals (U0_val f a SL) (k_val f) a 1) = Num SL"
    using I_far_SL_lin [of 1 SL] by (simp add: P_far_notebook nz)
  then show ?thesis using nz by (simp add: wavenumber_notebook U0_notebook)
qed

theorem far_field_at_reference_range_witness:
  "valid_input 12 0.5 180 \<and>
   (\<exists>k u. wavenumber notebook_globals 12 = Inr k \<and> U0 notebook_globals k 0.5 180 = Inr u \<and>
         I_far (P_far notebook_globals u k 0.5 1) = Num 180)"
proof -
  have v: "valid_input 12 0.5 180" by (simp add: valid_input_def)
  show ?thesis using v far_field_at_reference_range [OF v] by simp
qed

subsection \<open>Which inputs the calculator rejects\<close>

text \<open>
  Claim C2 as stated says that every input with a non-positive frequency or radius is
  rejected. The function has no validation: at \<open>f = -1\<close>, \<open>a = 0.5\<close>, \<open>SL = 180\<close> it
  returns the three sequences.
\<close>

theorem negative_frequency_accepted:
  "\<not> isl (fst (far_and_full_field_intensity_on_axis notebook_globals (- 1) 0.5 180))"
  by (simp add: calc_notebook)

text \<open>
  Claim C2, amended. The calculator validates nothing. On inputs of slider magnitude
  (source level in 100..220, frequency and radius zero or of an absolute value in
  1..200 and 0.01..1) it fails when \<open>f = 0\<close> or \<open>a = 0\<close>, with the \<^verbatim>\<open>ZeroDivisionError\<close>
  of the division that computes \<^verbatim>\<open>U0\<close>, and otherwise, a negative frequency or radius
  included, it returns its three sequences. In particular it raises no error on a valid
  input.
\<close>

theorem calculator_fails_only_at_zero:
  assumes "slider_magnitudes f a SL"
  shows "(f = 0 \<or> a = 0 \<longrightarrow>
           fst (far_and_full_field_intensity_on_axis notebook_globals f a SL)
             = Inl ZeroDivisionError) \<and>
         (f \<noteq> 0 \<and> a \<noteq> 0 \<longrightarrow>
           (\<exists>fa fu. fst (far_and_full_field_intensity_on_axis notebook_globals f a SL)
             = Inr (x_axis, fa, fu) \<and> length fa = 200 \<and> length fu = 200)) \<and>
         (valid_input f a SL \<longrightarrow>
           \<not> isl (fst (far_and_full_field_intensity_on_axis notebook_globals f a SL)))"
  using valid_input_nonzero [of f a SL]
  by (auto simp add: calc_notebook I_far_axis_length I_full_axis_length)

theorem calculator_fails_only_at_zero_witness:
  "slider_magnitudes 0 0.5 180 \<and> slider_magnitudes (- 1) 0.5 180 \<and>
   slider_magnitudes 12 0.5 180 \<and> valid_input 12 0.5 180 \<and>
   fst (far_and_full_field_intensity_on_axis notebook_globals 0 0.5 180)
     = Inl ZeroDivisionError \<and>
   (\<exists>fa fu. fst (far_and_full_field_intensity_on_axis notebook_globals (- 1) 0.5 180)
     = Inr (x_axis, fa, fu) \<and> length fa = 200 \<and> length fu = 200) \<and>
   \<not> isl (fst (far_and_full_field_intensity_on_axis notebook_globals 12 0.5 180))"
proof -
  have z: "slider_magnitudes 0 0.5 180" and n: "slider_magnitudes (- 1) 0.5 180"
    and p: "slider_magnitudes 12 0.5 180"
    by (simp_all add: slider_magnitudes_def)
  have v: "valid_input 12 0.5 180" by (simp add: valid_input_def)
  show ?thesis
    using z n p v calculator_fails_only_at_zero [OF z] calculator_fails_only_at_zero [OF n]
      calculator_fails_only_at_zero [OF p]
    by simp
qed

subsection \<open>Shape of the result\<close>

text \<open>
  Claim C3. For every valid input the calculator returns, and the three sequences it
  returns (the range axis, the far-field and the full-field intensity) have the same
  length.
\<close>

theorem sequences_equal_length:
  "valid_input f a SL \<Longrightarrow>
   \<exists>xs fa fu. fst (far_and_full_field_intensity_on_axis notebook_globals f a SL)
        = Inr (xs, fa, fu) \<and> length fa = length xs \<and> length fu = length xs"
  by (simp add: calc_valid I_far_axis_length I_full_axis_length x_axis_length)

theorem sequences_equal_length_witness:
  "valid_input 12 0.5 180 \<and>
   (\<exists>xs fa fu. fst (far_and_full_field_intensity_on_axis notebook_globals 12 0.5 180)
        = Inr (xs, fa, fu) \<and> length fa = length xs \<and> length fu = length xs)"
proof -
  have v: "valid_input 12 0.5 180" by (simp add: valid_input_def)
  show ?thesis using v sequences_equal_length [OF v] by simp
qed

lemma log10_strict_mono: "0 < x \<Longrightarrow> x < y \<Longrightarrow> log 10 x < log 10 y"
  by simp

lemma log10_mono: "0 < x \<Longrightarrow> x \<le> y \<Longrightarrow> log 10 x \<le> log 10 y"
  by simp

text \<open>
  Claim C4. For every valid input the far-field intensity decreases strictly along the
  range axis: consecutive range samples increase, and the far-field intensity at the
  earlier one is a number greater than the one at the later.
\<close>

theorem far_field_decreasing:
  "valid_input f a SL \<Longrightarrow>
   \<exists>xs fa fu. fst (far_and_full_field_intensity_on_axis notebook_globals f a SL)
        = Inr (xs, fa, fu) \<and>
      (\<forall>i. i + 1 < length xs \<longrightarrow> xs ! i < xs ! (i + 1) \<and>
         (\<exists>r s. fa ! i = Num r \<and> fa ! (i + 1) = Num s \<and> s < r))"
proof -
  assume v: "valid_input f a SL"
  then have nz: "f \<noteq> 0" "a \<noteq> 0" using valid_input_nonzero by blast+
  have "x_axis ! i < x_axis ! (i + 1) \<and>
        (\<exists>r s. I_far_axis notebook_globals (U0_val f a SL) (k_val f) a ! i = Num r \<and>
               I_far_axis notebook_globals (U0_val f a SL) (k_val f) a ! (i + 1) = Num s \<and>
               s < r)" if i: "i + 1 < 200" for i
  proof -
    have lt: "x_axis ! i < x_axis ! (i + 1)" using i by (intro x_axis_increasing) simp_all
    have pos: "0 < x_axis ! i" using i by (intro x_axis_nth_pos) simp
    have "log 10 (x_axis ! i) < log 10 (x_axis ! (i + 1))"
      using pos lt by (rule log10_strict_mono)
    then show ?thesis using lt i nz by (simp add: I_far_axis_nth)
  qed
  then show ?thesis using v by (simp add: calc_valid x_axis_length)
qed

theorem far_field_decreasing_witness:
  "valid_input 12 0.5 180 \<and> 0 + 1 < length x_axis \<and> x_axis ! 0 < x_axis ! (0 + 1) \<and>
   (\<exists>r s. I_far_axis notebook_globals (U0_val 12 0.5 180) (k_val 12) 0.5 ! 0 = Num r \<and>
          I_far_axis notebook_globals (U0_val 12 0.5 180) (k_val 12) 0.5 ! (0 + 1) = Num s \<and>
          s < r)"
proof -
  have v: "valid_input 12 0.5 180" by (simp add: valid_input_def)
  from far_field_decreasing [OF v] have
    "\<forall>i. i + 1 < 200 \<longrightarrow> x_axis ! i < x_axis ! (i + 1) \<and>
       (\<exists>r s. I_far_axis notebook_globals (U0_val 12 0.5 180) (k_val 12) 0.5 ! i = Num r \<and>
              I_far_axis notebook_globals (U0_val 12 0.5 180) (k_val 12) 0.5 ! (i + 1) = Num s \<and>
              s < r)"
    using v by (simp add: calc_valid x_axis_length)
  then have "0 + 1 < (200::nat) \<longrightarrow> x_axis ! 0 < x_axis ! (0 + 1) \<and>
       (\<exists>r s. I_far_axis notebook_globals (U0_val 12 0.5 180) (k_val 12) 0.5 ! 0 = Num r \<and>
              I_far_axis notebook_globals (U0_val 12 0.5 180) (k_val 12) 0.5 ! (0 + 1) = Num s \<and>
              s < r)"
    by (rule spec)
  then show ?thesis using v by (simp add: x_axis_length)
qed

lemma calc_returns_x_axis:
  "fst (far_and_full_field_intensity_on_axis g f a SL) = Inr (xs, fa, fu) \<Longrightarrow> xs = x_axis"
  by (auto simp add: far_and_full_field_intensity_on_axis_def split: sum.splits)

lemma x_axis_sorted: "sorted_wrt (<) x_axis"
  by (simp add: sorted_wrt_iff_nth_less x_axis_length x_axis_increasing)

text \<open>
  Claim C6. Whenever the calculator returns, whatever the module constants and the
  inputs, the range axis it returns is one fixed sequence: any two returned axes are
  equal, the axis has 200 samples, it is strictly increasing, and every sample lies in
  the interval \<open>(0, 5]\<close>.
\<close>

theorem range_axis_fixed:
  assumes "fst (far_and_full_field_intensity_on_axis g f a SL) = Inr (xs, fa, fu)"
    and "fst (far_and_full_field_intensity_on_axis g' f' a' SL') = Inr (xs', fa', fu')"
  shows "xs' = xs \<and> length xs = 200 \<and> sorted_wrt (<) xs \<and> (\<forall>x \<in> set xs. 0 < x \<and> x \<le> 5)"
  using calc_returns_x_axis [OF assms(1)] calc_returns_x_axis [OF assms(2)]
  by (simp add: x_axis_length x_axis_sorted x_axis_bounds)

theorem range_axis_fixed_witness:
  "fst (far_and_full_field_intensity_on_axis notebook_globals 12 0.5 180) =
     Inr (x_axis, I_far_axis notebook_globals (U0_val 12 0.5 180) (k_val 12) 0.5,
          I_full_axis notebook_globals (U0_val 12 0.5 180) (k_val 12) 0.5) \<and>
   fst (far_and_full_field_intensity_on_axis notebook_globals 200 1 100) =
     Inr (x_axis, I_far_axis notebook_globals (U0_val 200 1 100) (k_val 200) 1,
          I_full_axis notebook_globals (U0_val 200 1 100) (k_val 200) 1) \<and>
   length x_axis = 200 \<and> sorted_wrt (<) x_axis \<and> 0 < x_axis ! 0 \<and> x_axis ! 199 \<le> 5"
proof -
  have h1: "fst (far_and_full_field_intensity_on_axis notebook_globals 12 0.5 180) =
     Inr (x_axis, I_far_axis notebook_globals (U0_val 12 0.5 180) (k_val 12) 0.5,
          I_full_axis notebook_globals (U0_val 12 0.5 180) (k_val 12) 0.5)"
    by (simp add: calc_notebook)
  have h2: "fst (far_and_full_field_intensity_on_axis notebook_globals 200 1 100) =
     Inr (x_axis, I_far_axis notebook_globals (U0_val 200 1 100) (k_val 200) 1,
          I_full_axis notebook_globals (U0_val 200 1 100) (k_val 200) 1)"
    by (simp add: calc_notebook)
  have m: "x_axis ! 0 \<in> set x_axis" "x_axis ! 199 \<in> set x_axis"
    by (simp_all add: x_axis_length)
  have r: "length x_axis = 200 \<and> sorted_wrt (<) x_axis \<and> (\<forall>x \<in> set x_axis. 0 < x \<and> x \<le> 5)"
    using range_axis_fixed [OF h1 h2] by simp
  then have "0 < x_axis ! 0 \<and> x_axis ! 199 \<le> 5" using m by blast
  then show ?thesis using h1 h2 r by simp
qed

subsection \<open>Inverse-range decay and the closed form of the far field\<close>

text \<open>
  Claim C8. For every valid input the far-field pressure times the range is the same at
  all range samples, and the far-field intensities at two samples \<open>x\<close> and \<open>x'\<close> are
  numbers that differ by \<open>20 * log10 (x' / x)\<close>.
\<close>

theorem far_field_inverse_range:
  "valid_input f a SL \<Longrightarrow>
   \<exists>k u. wavenumber notebook_globals f = Inr k \<and> U0 notebook_globals k a SL = Inr u \<and>
     fst (far_and_full_field_intensity_on_axis notebook_globals f a SL) =
       Inr (x_axis, I_far_axis notebook_globals u k a, I_full_axis notebook_globals u k a) \<and>
     (\<forall>i j. i < length x_axis \<and> j < length x_axis \<longrightarrow>
        P_far_axis notebook_globals u k a ! i * x_axis ! i =
          P_far_axis notebook_globals u k a ! j * x_axis ! j \<and>
        (\<exists>r s. I_far_axis notebook_globals u k a ! i = Num r \<and>
               I_far_axis notebook_globals u k a ! j = Num s \<and>
               r - s = 20 * log 10 (x_axis ! j / x_axis ! i)))"
proof -
  assume v: "valid_input f a SL"
  then have nz: "f \<noteq> 0" "a \<noteq> 0" using valid_input_nonzero by blast+
  have "P_far_axis notebook_globals (U0_val f a SL) (k_val f) a ! i * x_axis ! i =
          P_far_axis notebook_globals (U0_val f a SL) (k_val f) a ! j * x_axis ! j \<and>
        (\<exists>r s. I_far_axis notebook_globals (U0_val f a SL) (k_val f) a ! i = Num r \<and>
               I_far_axis notebook_globals (U0_val f a SL) (k_val f) a ! j = Num s \<and>
               r - s = 20 * log 10 (x_axis ! j / x_axis ! i))"
    if ij: "i < 200" "j < 200" for i j
  proof -
    have pi: "0 < x_axis ! i" and pj: "0 < x_axis ! j"
      using ij by (simp_all add: x_axis_nth_pos)
    have "log 10 (x_axis ! j / x_axis ! i) = log 10 (x_axis ! j) - log 10 (x_axis ! i)"
      using pi pj by (simp add: log_divide)
    then show ?thesis using pi pj ij nz
      by (simp add: P_far_axis_nth I_far_axis_nth)
  qed
  then show ?thesis using v nz
    by (simp add: wavenumber_notebook U0_notebook calc_valid x_axis_length)
qed

theorem far_field_inverse_range_witness:
  "valid_input 12 0.5 180 \<and> 0 < length x_axis \<and> 199 < length x_axis \<and>
   P_far_axis notebook_globals (U0_val 12 0.5 180) (k_val 12) 0.5 ! 0 * x_axis ! 0 =
     P_far_axis notebook_globals (U0_val 12 0.5 180) (k_val 12) 0.5 ! 199 * x_axis ! 199 \<and>
   (\<exists>r s. I_far_axis notebook_globals (U0_val 12 0.5 180) (k_val 12) 0.5 ! 0 = Num r \<and>
          I_far_axis notebook_globals (U0_val 12 0.5 180) (k_val 12) 0.5 ! 199 = Num s \<and>
          r - s = 20 * log 10 (x_axis ! 199 / x_axis ! 0))"
proof -
  have v: "valid_input 12 0.5 180" by (simp add: valid_input_def)
  let ?u = "U0_val 12 0.5 180" and ?k = "k_val 12"
  from far_field_inverse_range [OF v] have
    "\<forall>i j. i < 200 \<and> j < 200 \<longrightarrow>
        P_far_axis notebook_globals ?u ?k 0.5 ! i * x_axis ! i =
          P_far_axis notebook_globals ?u ?k 0.5 ! j * x_axis ! j \<and>
        (\<exists>r s. I_far_axis notebook_globals ?u ?k 0.5 ! i = Num r \<and>
               I_far_axis notebook_globals ?u ?k 0.5 ! j = Num s \<and>
               r - s = 20 * log 10 (x_axis ! j / x_axis ! i))"
    by (simp add: wavenumber_notebook U0_notebook x_axis_length)
  then have "0 < (200::nat) \<and> 199 < (200::nat) \<longrightarrow>
        P_far_axis notebook_globals ?u ?k 0.5 ! 0 * x_axis ! 0 =
          P_far_axis notebook_globals ?u ?k 0.5 ! 199 * x_axis ! 199 \<and>
        (\<exists>r s. I_far_axis notebook_globals ?u ?k 0.5 ! 0 = Num r \<and>
               I_far_axis notebook_globals ?u ?k 0.5 ! 199 = Num s \<and>
               r - s = 20 * log 10 (x_axis ! 199 / x_axis ! 0))"
    by blast
  then show ?thesis using v by (simp add: x_axis_length)
qed

text \<open>
  Claim C9. For every valid input the far-field intensity at every range sample \<open>x\<close> is
  exactly \<open>SL - 20 * log10 x\<close>, so it does not depend on the frequency or the radius:
  two valid inputs with the same source level give the same far-field sequence.
\<close>

theorem far_field_closed_form:
  assumes "valid_input f a SL" and "valid_input f' a' SL"
  shows "\<exists>xs fa fu fu'.
     fst (far_and_full_field_intensity_on_axis notebook_globals f a SL) = Inr (xs, fa, fu) \<and>
     fst (far_and_full_field_intensity_on_axis notebook_globals f' a' SL) = Inr (xs, fa, fu') \<and>
     length fa = length xs \<and>
     (\<forall>i < length xs. fa ! i = Num (SL - 20 * log 10 (xs ! i)))"
proof -
  have nz: "f \<noteq> 0" "a \<noteq> 0" "f' \<noteq> 0" "a' \<noteq> 0"
    using assms valid_input_nonzero by blast+
  have n: "\<forall>i < 200. I_far_axis notebook_globals (U0_val f a SL) (k_val f) a ! i
      = Num (SL - 20 * log 10 (x_axis ! i))"
    using nz by (simp add: I_far_axis_nth)
  have "I_far_axis notebook_globals (U0_val f' a' SL) (k_val f') a'
      = I_far_axis notebook_globals (U0_val f a SL) (k_val f) a"
    using nz by (intro nth_equalityI) (simp_all add: I_far_axis_length I_far_axis_nth)
  then show ?thesis using assms n
    by (simp add: calc_valid x_axis_length I_far_axis_length)
qed

theorem far_field_closed_form_witness:
  "valid_input 12 0.5 180 \<and> valid_input 200 1 180 \<and> 199 < length x_axis \<and>
   I_far_axis notebook_globals (U0_val 200 1 180) (k_val 200) 1 =
     I_far_axis notebook_globals (U0_val 12 0.5 180) (k_val 12) 0.5 \<and>
   I_far_axis notebook_globals (U0_val 12 0.5 180) (k_val 12) 0.5 ! 199 =
     Num (180 - 20 * log 10 (x_axis ! 199))"
proof -
  have v: "valid_input 12 0.5 180" and v': "valid_input 200 1 180"
    by (simp_all add: valid_input_def)
  from far_field_closed_form [OF v v'] have
    "I_far_axis notebook_globals (U0_val 200 1 180) (k_val 200) 1 =
       I_far_axis notebook_globals (U0_val 12 0.5 180) (k_val 12) 0.5 \<and>
     (\<forall>i < 200. I_far_axis notebook_globals (U0_val 12 0.5 180) (k_val 12) 0.5 ! i =
        Num (180 - 20 * log 10 (x_axis ! i)))"
    using v v' by (auto simp add: calc_valid x_axis_length)
  then show ?thesis using v v' by (simp add: x_axis_length)
qed

subsection \<open>The source level shifts both curves\<close>

lemma I_full_scale:
  assumes "0 < r"
  shows "I_full (of_real r * z) = np_plus (I_full z) (20 * log 10 r)"
proof (cases "z = 0")
  case True
  then show ?thesis by (simp add: I_full_def np_log10_def)
next
  case False
  then have m: "0 < cmod z" by simp
  have n: "cmod (of_real r * z) = r * cmod z"
    using assms by (simp add: norm_mult)
  have "log 10 ((r * cmod z)\<^sup>2) = 2 * log 10 (r * cmod z)"
    using assms m by (simp add: log_nat_power)
  also have "\<dots> = 2 * (log 10 r + log 10 (cmod z))"
    using assms m by (simp add: log_mult)
  finally have a: "10 * log 10 ((r * cmod z)\<^sup>2) = 20 * log 10 r + 20 * log 10 (cmod z)"
    by simp
  have b: "10 * log 10 ((cmod z)\<^sup>2) = 20 * log 10 (cmod z)"
    using m by (simp add: log_nat_power)
  have p1: "0 < (r * cmod z)\<^sup>2" using assms m by (intro zero_less_power mult_pos_pos)
  have p2: "0 < (cmod z)\<^sup>2" using m by (rule zero_less_power)
  have "I_full (of_real r * z) = Num (10 * log 10 ((r * cmod z)\<^sup>2))"
    unfolding I_full_def np_log10_def n using p1 by simp
  moreover have "I_full z = Num (10 * log 10 ((cmod z)\<^sup>2))"
    unfolding I_full_def np_log10_def using p2 by simp
  ultimately show ?thesis by (simp add: a b)
qed

lemma SL_lin_ratio: "20 * log 10 (SL_lin SL / SL_lin SL') = SL - SL'"
  using SL_lin_pos [of SL] SL_lin_pos [of SL']
  by (simp add: log_divide) (simp add: SL_lin_def)

lemma P_full_shift:
  "P_full g (U0_val f a SL) k a x =
     of_real (SL_lin SL / SL_lin SL') * P_full g (U0_val f a SL') k a x"
  using SL_lin_pos [of SL']
  by (simp add: P_full_def U0_val_def)

lemma I_full_shift:
  "I_full (P_full g (U0_val f a SL) k a x) =
     np_plus (I_full (P_full g (U0_val f a SL') k a x)) (SL - SL')"
proof -
  have "0 < SL_lin SL / SL_lin SL'" using SL_lin_pos [of SL] SL_lin_pos [of SL'] by simp
  then show ?thesis
    by (subst P_full_shift [of g f a SL k x SL']) (simp only: I_full_scale SL_lin_ratio)
qed

text \<open>
  Claim C10. For valid \<open>(f, a)\<close> and two source levels \<open>SL\<close> and \<open>SL'\<close> the range axis
  is the same, and the far-field and the full-field sequence for \<open>SL\<close> are those for
  \<open>SL'\<close> with the constant \<open>SL - SL'\<close> added at every sample (an entry \<^verbatim>\<open>-inf\<close>, where
  the full-field pressure vanishes, stays \<^verbatim>\<open>-inf\<close>).
\<close>

theorem source_level_shift:
  assumes "valid_input f a SL" and "valid_input f a SL'"
  shows "\<exists>xs fa fu fa' fu'.
     fst (far_and_full_field_intensity_on_axis notebook_globals f a SL) = Inr (xs, fa, fu) \<and>
     fst (far_and_full_field_intensity_on_axis notebook_globals f a SL') = Inr (xs, fa', fu') \<and>
     fa = map (\<lambda>v. np_plus v (SL - SL')) fa' \<and>
     fu = map (\<lambda>v. np_plus v (SL - SL')) fu'"
proof -
  have nz: "f \<noteq> 0" "a \<noteq> 0" using assms valid_input_nonzero by blast+
  have far: "I_far_axis notebook_globals (U0_val f a SL) (k_val f) a =
      map (\<lambda>v. np_plus v (SL - SL')) (I_far_axis notebook_globals (U0_val f a SL') (k_val f) a)"
    using nz by (intro nth_equalityI) (simp_all add: I_far_axis_length I_far_axis_nth)
  have full: "I_full_axis notebook_globals (U0_val f a SL) (k_val f) a =
      map (\<lambda>v. np_plus v (SL - SL')) (I_full_axis notebook_globals (U0_val f a SL') (k_val f) a)"
    by (simp add: I_full_axis_def P_full_axis_def I_full_shift [of _ f a SL _ _ SL'])
  show ?thesis using assms far full by (simp add: calc_valid)
qed

theorem source_level_shift_witness:
  "valid_input 12 0.5 180 \<and> valid_input 12 0.5 100 \<and>
   (\<exists>xs fa fu fa' fu'.
     fst (far_and_full_field_intensity_on_axis notebook_globals 12 0.5 180) = Inr (xs, fa, fu) \<and>
     fst (far_and_full_field_intensity_on_axis notebook_globals 12 0.5 100) = Inr (xs, fa', fu') \<and>
     fa = map (\<lambda>v. np_plus v 80) fa' \<and>
     fu = map (\<lambda>v. np_plus v 80) fu')"
proof -
  have v: "valid_input 12 0.5 180" and v': "valid_input 12 0.5 100"
    by (simp_all add: valid_input_def)
  show ?thesis using v v' source_level_shift [OF v v'] by simp
qed

subsection \<open>Far field against full field\<close>

lemma cos_lower: "1 - t\<^sup>2 / 2 \<le> cos (t::real)"
proof -
  have e: "t = 2 * (t / 2)" by simp
  have "cos t = 1 - 2 * (sin (t / 2))\<^sup>2"
    by (subst e) (rule cos_double_sin)
  moreover have "(sin (t / 2))\<^sup>2 \<le> (t / 2)\<^sup>2"
    by (rule iffD1 [OF abs_le_square_iff]) (rule abs_sin_x_le_abs_x)
  ultimately show ?thesis by (simp add: power2_eq_square)
qed

lemma sin_lower:
  assumes "0 \<le> (t::real)"
  shows "t - t ^ 3 / 6 \<le> sin t"
proof -
  let ?h = "\<lambda>s::real. sin s - s + s ^ 3 / 6"
  have "?h 0 \<le> ?h t"
  proof (rule DERIV_nonneg_imp_nondecreasing [OF assms])
    fix s :: real
    assume "0 \<le> s"
    have "(?h has_real_derivative (cos s - 1 + s\<^sup>2 / 2)) (at s)"
      by (auto intro!: derivative_eq_intros simp add: power2_eq_square)
    moreover have "0 \<le> cos s - 1 + s\<^sup>2 / 2" using cos_lower [of s] by simp
    ultimately show "\<exists>y. (?h has_real_derivative y) (at s) \<and> 0 \<le> y" by blast
  qed
  then show ?thesis by simp
qed

lemma dB_of_nine_tenths: "- 1 < 20 * log 10 (9 / 10 :: real)"
proof -
  have "(1 / 10 :: real) < (9 / 10) ^ 20" by (simp add: power_divide)
  then have "log 10 (1 / 10 :: real) < log 10 ((9 / 10) ^ 20)"
    by (intro log10_strict_mono) simp_all
  moreover have "log 10 (1 / 10 :: real) = - 1" by (simp add: log_divide)
  moreover have "log 10 ((9 / 10 :: real) ^ 20) = 20 * log 10 (9 / 10)"
    by (simp add: log_nat_power)
  ultimately show ?thesis by simp
qed

lemma cmod_P_full_notebook:
  assumes "f \<noteq> 0" "a \<noteq> 0" "x \<noteq> 0"
  shows "(cmod (P_full notebook_globals (U0_val f a SL) (k_val f) a x))\<^sup>2 =
    ((SL_lin SL / x) * (sin (half_phase f a x) / far_phase f a x))\<^sup>2"
proof -
  have k: "k_val f \<noteq> 0" using assms by (simp add: k_val_zero_iff)
  have e: "1500 * U0_val f a SL * 2 = (SL_lin SL / x) * (1 / far_phase f a x)"
    using assms k by (simp add: U0_val_def far_phase_def power2_eq_square ac_simps)
  have "(1500 * U0_val f a SL)\<^sup>2 * 4 = (1500 * U0_val f a SL * 2)\<^sup>2"
    by (simp add: power_mult_distrib)
  then have m: "(1500 * U0_val f a SL)\<^sup>2 * 4 = ((SL_lin SL / x) * (1 / far_phase f a x))\<^sup>2"
    by (simp only: e)
  have "(cmod (P_full notebook_globals (U0_val f a SL) (k_val f) a x))\<^sup>2 =
      ((1500 * U0_val f a SL)\<^sup>2 * 4) * (sin (half_phase f a x))\<^sup>2"
    unfolding cmod_P_full half_phase_def by (simp add: notebook_globals_def)
  also have "\<dots> = ((SL_lin SL / x) * (1 / far_phase f a x))\<^sup>2 * (sin (half_phase f a x))\<^sup>2"
    by (simp only: m)
  also have "\<dots> = ((SL_lin SL / x) * (1 / far_phase f a x) * sin (half_phase f a x))\<^sup>2"
    by (simp only: power_mult_distrib)
  also have "(SL_lin SL / x) * (1 / far_phase f a x) * sin (half_phase f a x) =
      (SL_lin SL / x) * (sin (half_phase f a x) / far_phase f a x)"
    by simp
  finally show ?thesis .
qed

lemma sqrt_bounds:
  assumes a: "0 < a" and x: "0 < x" and far: "4 * a \<le> x"
  shows "x + (12 / 25) * (a\<^sup>2 / x) \<le> sqrt (x\<^sup>2 + a\<^sup>2)"
    and "sqrt (x\<^sup>2 + a\<^sup>2) \<le> x + (1 / 2) * (a\<^sup>2 / x)"
proof -
  define d where "d = a\<^sup>2 / x"
  have d0: "0 < d" using a x by (simp add: d_def)
  have xd: "x * d = a\<^sup>2" using x by (simp add: d_def)
  have "d \<le> a / 4"
  proof -
    have "a * a \<le> a * (x / 4)" using a far by (intro mult_left_mono) simp_all
    then show ?thesis using x by (simp add: d_def power2_eq_square field_simps)
  qed
  then have "d * d \<le> (a / 4) * (a / 4)" using d0 by (intro mult_mono) simp_all
  then have dd: "d\<^sup>2 \<le> a\<^sup>2 / 16" by (simp add: power2_eq_square)
  have "(x + (12 / 25) * d)\<^sup>2 = x\<^sup>2 + (24 / 25) * (x * d) + (144 / 625) * d\<^sup>2"
    by (simp add: power2_eq_square algebra_simps)
  also have "\<dots> \<le> x\<^sup>2 + (24 / 25) * a\<^sup>2 + (144 / 625) * (a\<^sup>2 / 16)"
    using dd by (simp add: xd)
  also have "\<dots> \<le> x\<^sup>2 + a\<^sup>2" by simp
  finally show "x + (12 / 25) * (a\<^sup>2 / x) \<le> sqrt (x\<^sup>2 + a\<^sup>2)"
    unfolding d_def by (rule real_le_rsqrt)
  have "(x + (1 / 2) * d)\<^sup>2 = x\<^sup>2 + x * d + (1 / 4) * d\<^sup>2"
    by (simp add: power2_eq_square algebra_simps)
  then have "x\<^sup>2 + a\<^sup>2 \<le> (x + (1 / 2) * d)\<^sup>2" by (simp add: xd)
  moreover have "0 \<le> x + (1 / 2) * d" using x d0 by simp
  ultimately show "sqrt (x\<^sup>2 + a\<^sup>2) \<le> x + (1 / 2) * (a\<^sup>2 / x)"
    unfolding d_def by (intro real_le_lsqrt)
qed

lemma phase_bounds:
  assumes f: "0 < f" and a: "0 < a" and x: "0 < x" and far: "4 * a \<le> x"
  shows "(24 / 25) * far_phase f a x \<le> half_phase f a x"
    and "half_phase f a x \<le> far_phase f a x"
proof -
  have k: "0 < k_val f" using f by (simp add: k_val_def omega_def)
  have "k_val f * ((12 / 25) * (a\<^sup>2 / x)) \<le> k_val f * (sqrt (x\<^sup>2 + a\<^sup>2) - x)"
    using k sqrt_bounds(1) [OF a x far] by (intro mult_left_mono) simp_all
  then show "(24 / 25) * far_phase f a x \<le> half_phase f a x"
    by (simp add: far_phase_def half_phase_def)
  have "k_val f * (sqrt (x\<^sup>2 + a\<^sup>2) - x) \<le> k_val f * ((1 / 2) * (a\<^sup>2 / x))"
    using k sqrt_bounds(2) [OF a x far] by (intro mult_left_mono) simp_all
  then show "half_phase f a x \<le> far_phase f a x"
    by (simp add: far_phase_def half_phase_def)
qed

lemma sin_ratio_bounds:
  assumes p: "0 < p" "p \<le> 1 / 2" and t: "(24 / 25) * p \<le> t" "t \<le> (p::real)"
  shows "(9 / 10) * p \<le> sin t" and "sin t \<le> p"
proof -
  have t0: "0 \<le> t" using p t by simp
  have th: "t \<le> 1 / 2" using p t by simp
  show "sin t \<le> p" using sin_x_le_x [OF t0] t by simp
  have "t * t \<le> (1 / 2) * (1 / 2)" using t0 th by (intro mult_mono) simp_all
  then have "t * (t * t) \<le> t * (1 / 4)" using t0 by (intro mult_left_mono) simp_all
  then have "t ^ 3 \<le> t / 4" by (simp add: power3_eq_cube mult.assoc)
  then have "(23 / 24) * t \<le> t - t ^ 3 / 6" by simp
  also have "\<dots> \<le> sin t" using sin_lower [OF t0] .
  finally have "(23 / 24) * t \<le> sin t" .
  moreover have "(23 / 24) * ((24 / 25) * p) \<le> (23 / 24) * t"
    using t by (intro mult_left_mono) simp_all
  ultimately show "(9 / 10) * p \<le> sin t" using p by simp
qed

lemma far_phase_wavelength:
  assumes "0 < f" "0 < x"
  shows "far_phase f a x \<le> 1 / 2 \<longleftrightarrow> pi * a\<^sup>2 / wavelength notebook_globals f \<le> x"
  using assms
  by (simp add: far_phase_def k_val_def omega_def wavelength_def notebook_globals_def field_simps)

lemma log10_mult_pos: "0 < u \<Longrightarrow> 0 < v \<Longrightarrow> log 10 (u * v) = log 10 u + log 10 v"
  by (simp add: log_mult)

lemma log10_divide_pos: "0 < u \<Longrightarrow> 0 < v \<Longrightarrow> log 10 (u / v) = log 10 u - log 10 v"
  by (simp add: log_divide)

lemma far_phase_nonzero: "f \<noteq> 0 \<Longrightarrow> a \<noteq> 0 \<Longrightarrow> x \<noteq> 0 \<Longrightarrow> far_phase f a x \<noteq> 0"
  by (simp add: far_phase_def k_val_zero_iff)

lemma I_full_notebook:
  assumes "f \<noteq> 0" "a \<noteq> 0" "0 < x"
  shows "I_full (P_full notebook_globals (U0_val f a SL) (k_val f) a x) =
    (if sin (half_phase f a x) = 0 then NegInf
     else Num (SL - 20 * log 10 x + 20 * log 10 \<bar>sin (half_phase f a x) / far_phase f a x\<bar>))"
proof -
  let ?q = "\<bar>sin (half_phase f a x) / far_phase f a x\<bar>"
  let ?P = "P_full notebook_globals (U0_val f a SL) (k_val f) a x"
  have x0: "x \<noteq> 0" using assms by simp
  have ph: "far_phase f a x \<noteq> 0" using assms far_phase_nonzero by simp
  have s: "0 < SL_lin SL / x" using assms SL_lin_pos [of SL] by simp
  have "(cmod ?P)\<^sup>2 = \<bar>(SL_lin SL / x) * (sin (half_phase f a x) / far_phase f a x)\<bar>\<^sup>2"
    unfolding cmod_P_full_notebook [OF assms(1,2) x0] by (simp only: power2_abs)
  also have "\<bar>(SL_lin SL / x) * (sin (half_phase f a x) / far_phase f a x)\<bar> = (SL_lin SL / x) * ?q"
    using s by (simp only: abs_mult abs_of_pos)
  finally have m: "(cmod ?P)\<^sup>2 = ((SL_lin SL / x) * ?q)\<^sup>2" .
  show ?thesis
  proof (cases "sin (half_phase f a x) = 0")
    case True
    then have "(cmod ?P)\<^sup>2 = 0" unfolding m by simp
    then show ?thesis using True unfolding I_full_def np_log10_def by simp
  next
    case False
    then have q: "0 < ?q" using ph by simp
    have pos: "0 < (SL_lin SL / x) * ?q" using s q by (rule mult_pos_pos)
    have "log 10 (((SL_lin SL / x) * ?q)\<^sup>2) = 2 * log 10 ((SL_lin SL / x) * ?q)"
      using pos by (simp add: log_nat_power)
    also have "\<dots> = 2 * (log 10 (SL_lin SL / x) + log 10 ?q)"
      using s q by (simp only: log10_mult_pos)
    also have "log 10 (SL_lin SL / x) = log 10 (SL_lin SL) - log 10 x"
      using assms SL_lin_pos [of SL] by (simp only: log10_divide_pos)
    also have "log 10 (SL_lin SL) = SL / 20" by (simp add: SL_lin_def)
    finally have l: "10 * log 10 (((SL_lin SL / x) * ?q)\<^sup>2) = SL - 20 * log 10 x + 20 * log 10 ?q"
      by simp
    have "0 < ((SL_lin SL / x) * ?q)\<^sup>2" using pos by (rule zero_less_power)
    then have "I_full ?P = Num (10 * log 10 (((SL_lin SL / x) * ?q)\<^sup>2))"
      unfolding I_full_def np_log10_def m by simp
    then show ?thesis using False by (simp only: l if_False)
  qed
qed

lemma I_full_axis_nth:
  "i < 200 \<Longrightarrow> I_full_axis g u k a ! i = I_full (P_full g u k a (x_axis ! i))"
  by (simp add: I_full_axis_def P_full_axis_def x_axis_length)

lemma x_axis_last: "x_axis ! 199 = 5"
  by (simp add: x_axis_nth)

lemma last_200: "length xs = 200 \<Longrightarrow> last xs = xs ! 199"
  by (cases "xs = []") (simp_all add: last_conv_nth)

lemma agreement_at_sample:
  assumes v: "valid_input f a SL" and x: "0 < x"
    and far: "2 * (2 * a) \<le> x" and ray: "pi * a\<^sup>2 / wavelength notebook_globals f \<le> x"
  shows "\<exists>s. I_full (P_full notebook_globals (U0_val f a SL) (k_val f) a x) = Num s \<and>
             s \<le> SL - 20 * log 10 x \<and> (SL - 20 * log 10 x) - s < 1"
proof -
  have f: "0 < f" and a: "0 < a" using v by (simp_all add: valid_input_def)
  have far': "4 * a \<le> x" using far by simp
  let ?p = "far_phase f a x" and ?t = "half_phase f a x"
  have p0: "0 < ?p" using f a x by (simp add: far_phase_def k_val_def omega_def)
  have p1: "?p \<le> 1 / 2" using ray far_phase_wavelength [OF f x, of a] by simp
  note ph = phase_bounds [OF f a x far']
  note sb = sin_ratio_bounds [OF p0 p1 ph]
  have s0: "0 < sin ?t" using sb(1) p0 by simp
  let ?q = "sin ?t / ?p"
  have q1: "?q \<le> 1" using sb(2) p0 by simp
  have q9: "9 / 10 \<le> ?q" using sb(1) p0 by (simp add: pos_le_divide_eq)
  have q0: "0 < ?q" using s0 p0 by simp
  have "log 10 ?q \<le> log 10 1" using q0 q1 by (rule log10_mono)
  then have up: "20 * log 10 ?q \<le> 0" by simp
  have "log 10 (9 / 10) \<le> log 10 ?q" using q9 by (intro log10_mono) simp_all
  then have lo: "- 1 < 20 * log 10 ?q" using dB_of_nine_tenths by simp
  have "I_full (P_full notebook_globals (U0_val f a SL) (k_val f) a x) =
      Num (SL - 20 * log 10 x + 20 * log 10 \<bar>?q\<bar>)"
    using I_full_notebook [of f a x SL] f a x s0 by simp
  also have "\<bar>?q\<bar> = ?q" using q0 by (simp only: abs_of_pos)
  finally show ?thesis using up lo by simp
qed

text \<open>
  Claim C5, amended. For every valid input, at every range sample \<open>x\<close> with
  \<open>2 * (2 * a) \<le> x\<close> and \<open>\<pi> * a\<^sup>2 / \<lambda> \<le> x\<close> the full-field intensity is a number, it is
  at most the far-field intensity and less than 1 dB below it. The last samples differ
  by less than 1 dB when \<open>\<pi> * a\<^sup>2 / \<lambda> \<le> 5\<close>.
\<close>

theorem far_field_agreement:
  "valid_input f a SL \<Longrightarrow>
   \<exists>xs fa fu. fst (far_and_full_field_intensity_on_axis notebook_globals f a SL)
        = Inr (xs, fa, fu) \<and>
      (\<forall>i < length xs.
         2 * (2 * a) \<le> xs ! i \<and> pi * a\<^sup>2 / wavelength notebook_globals f \<le> xs ! i \<longrightarrow>
         (\<exists>r s. fa ! i = Num r \<and> fu ! i = Num s \<and> s \<le> r \<and> r - s < 1)) \<and>
      (pi * a\<^sup>2 / wavelength notebook_globals f \<le> last xs \<longrightarrow>
         within_dB 1 (last fa) (last fu))"
proof -
  assume v: "valid_input f a SL"
  then have nz: "f \<noteq> 0" "a \<noteq> 0" using valid_input_nonzero by blast+
  let ?fa = "I_far_axis notebook_globals (U0_val f a SL) (k_val f) a"
  let ?fu = "I_full_axis notebook_globals (U0_val f a SL) (k_val f) a"
  have each: "\<exists>r s. ?fa ! i = Num r \<and> ?fu ! i = Num s \<and> s \<le> r \<and> r - s < 1"
    if i: "i < 200" and far: "2 * (2 * a) \<le> x_axis ! i"
      and ray: "pi * a\<^sup>2 / wavelength notebook_globals f \<le> x_axis ! i" for i
    using agreement_at_sample [OF v x_axis_nth_pos [OF i] far ray] i nz
    by (simp add: I_far_axis_nth I_full_axis_nth)
  have "within_dB 1 (last ?fa) (last ?fu)"
    if ray: "pi * a\<^sup>2 / wavelength notebook_globals f \<le> last x_axis"
  proof -
    have "2 * (2 * a) \<le> x_axis ! 199" using v by (simp add: x_axis_last valid_input_def)
    moreover have "pi * a\<^sup>2 / wavelength notebook_globals f \<le> x_axis ! 199"
      using ray by (simp add: last_200 x_axis_length)
    ultimately obtain r s where "?fa ! 199 = Num r" "?fu ! 199 = Num s" "s \<le> r" "r - s < 1"
      using each [of 199] by auto
    then show ?thesis
      by (simp add: last_200 I_far_axis_length I_full_axis_length)
  qed
  then show ?thesis using v each by (simp add: calc_valid x_axis_length)
qed

theorem far_field_agreement_witness:
  "valid_input 1 0.01 100 \<and>
   2 * (2 * 0.01) \<le> x_axis ! 199 \<and> pi * 0.01\<^sup>2 / wavelength notebook_globals 1 \<le> x_axis ! 199 \<and>
   (\<exists>r s. I_far_axis notebook_globals (U0_val 1 0.01 100) (k_val 1) 0.01 ! 199 = Num r \<and>
          I_full_axis notebook_globals (U0_val 1 0.01 100) (k_val 1) 0.01 ! 199 = Num s \<and>
          s \<le> r \<and> r - s < 1)"
proof -
  have v: "valid_input 1 0.01 100" by (simp add: valid_input_def)
  have far: "2 * (2 * 0.01) \<le> x_axis ! 199" by (simp add: x_axis_last)
  have e: "pi * 0.01\<^sup>2 / wavelength notebook_globals 1 = pi / 15000"
    by (simp add: wavelength_def notebook_globals_def power2_eq_square)
  have "pi / 15000 \<le> 5" using pi_less_4 by simp
  then have ray: "pi * 0.01\<^sup>2 / wavelength notebook_globals 1 \<le> x_axis ! 199"
    by (simp only: e x_axis_last)
  from far_field_agreement [OF v] have
    "\<forall>i < 200.
       2 * (2 * 0.01) \<le> x_axis ! i \<and> pi * 0.01\<^sup>2 / wavelength notebook_globals 1 \<le> x_axis ! i \<longrightarrow>
       (\<exists>r s. I_far_axis notebook_globals (U0_val 1 0.01 100) (k_val 1) 0.01 ! i = Num r \<and>
              I_full_axis notebook_globals (U0_val 1 0.01 100) (k_val 1) 0.01 ! i = Num s \<and>
              s \<le> r \<and> r - s < 1)"
    using v by (simp add: calc_valid x_axis_length)
  then show ?thesis using v far ray by simp
qed

text \<open>
  Claim C5 as stated says that for every valid input the last samples of the two
  sequences differ by less than 1 dB. At \<open>f = 200\<close>, \<open>a = 1\<close>, \<open>SL = 180\<close> the last sample,
  at 5 m, is far inside the near field (\<open>\<pi> * a\<^sup>2 / \<lambda>\<close> is about 419 m) and the two
  intensities are more than 1 dB apart.
\<close>

theorem last_samples_disagree:
  "valid_input 200 1 180 \<and> \<not> last_samples_agree 200 1 180"
proof -
  have v: "valid_input 200 1 180" by (simp add: valid_input_def)
  let ?fa = "I_far_axis notebook_globals (U0_val 200 1 180) (k_val 200) 1"
  let ?fu = "I_full_axis notebook_globals (U0_val 200 1 180) (k_val 200) 1"
  let ?t = "half_phase 200 1 5" and ?p = "far_phase 200 1 5"
  have fa: "last ?fa = Num (180 - 20 * log 10 5)"
    by (simp add: last_200 I_far_axis_length I_far_axis_nth x_axis_last)
  have fu: "last ?fu = (if sin ?t = 0 then NegInf
      else Num (180 - 20 * log 10 5 + 20 * log 10 \<bar>sin ?t / ?p\<bar>))"
    using I_full_notebook [of 200 1 5 180]
    by (simp add: last_200 I_full_axis_length I_full_axis_nth x_axis_last)
  have p: "20 \<le> ?p" using pi_ge_two by (simp add: far_phase_def k_val_def omega_def)
  have far: "20 * log 10 \<bar>sin ?t / ?p\<bar> \<le> - 1" if nz: "sin ?t \<noteq> 0"
  proof -
    have q0: "0 < \<bar>sin ?t / ?p\<bar>" using nz p by simp
    have "\<bar>sin ?t\<bar> \<le> 1" by simp
    then have "\<bar>sin ?t\<bar> / ?p \<le> 1 / 20" using p by (intro frac_le) simp_all
    then have "\<bar>sin ?t / ?p\<bar> \<le> 1 / 10" using p by simp
    with q0 have "log 10 \<bar>sin ?t / ?p\<bar> \<le> log 10 (1 / 10)"
      by (rule log10_mono)
    moreover have "log 10 (1 / 10 :: real) = - 1" by (simp add: log_divide)
    ultimately show ?thesis by simp
  qed
  have "\<not> within_dB 1 (last ?fa) (last ?fu)"
  proof (cases "sin ?t = 0")
    case True
    then show ?thesis by (simp add: fa fu)
  next
    case False
    then show ?thesis using far [OF False] by (simp add: fa fu)
  qed
  then show ?thesis using v by (simp add: last_samples_agree_def calc_valid)
qed

end
